theory Spec2Isabelle
  imports Complex_Main
begin

section \<open>Seeded data\<close>

text \<open>
  An update is a Python dictionary with a fixed set of keys; it is modelled as a record
  with one field per key. The key \<^verbatim>\<open>id\<close> is the field \<open>update_id\<close>.
\<close>

record update =
  update_id :: int
  country :: string
  regulation_name :: string
  reference_number :: string
  authority :: string
  summary :: string
  key_changes :: "string list"
  effective_date :: string
  compliance_deadline :: string
  transition_period :: string
  applicable :: bool
  impact_level :: string
  harmonization :: "string list"
  affected_products :: "string list"
  rationale :: string

definition COUNTRIES :: "string list" where
  "COUNTRIES =
     [''United States'', ''United Kingdom'', ''Japan'', ''United Arab Emirates'',
      ''Korea, Republic of'', ''India'', ''China'', ''Italy'', ''Switzerland'', ''Taiwan'',
      ''Spain'', ''Turkey'', ''Israel'', ''Germany'', ''Canada'']"

definition PRODUCTS :: "string list" where
  "PRODUCTS =
     [''Guardant360'', ''Guardant360 CDx'', ''GuardantOMNI'', ''Guardant Reveal'', ''Shield'']"

definition STUB_UPDATES :: "update list" where
  "STUB_UPDATES =
     [\<lparr>update_id = 1,
       country = ''United States'',
       regulation_name = ''CLIA Update 2025'',
       reference_number = ''CLIA-2025-01'',
       authority = ''CMS'',
       summary = ''CLIA regulations updated for NGS-based diagnostics.'',
       key_changes =
         [''Expanded oversight for ctDNA tests.'',
          ''New reporting requirements.'',
          ''Shortened compliance window.''],
       effective_date = ''2025-12-01'',
       compliance_deadline = ''2026-03-01'',
       transition_period = ''3 months'',
       applicable = True,
       impact_level = ''CRITICAL'',
       harmonization = [''CLIA'', ''CAP'', ''FDA guidance''],
       affected_products = [''Guardant360'', ''GuardantOMNI''],
       rationale = ''Immediate compliance required for NGS-based tests.''\<rparr>,
      \<lparr>update_id = 2,
       country = ''Japan'',
       regulation_name = ''PMDA Guidance on Liquid Biopsy'',
       reference_number = ''PMDA-2025-02'',
       authority = ''PMDA'',
       summary = ''New guidance for liquid biopsy cancer screening.'',
       key_changes =
         [''Clarified requirements for ctDNA.'',
          ''Introduced ISO 15189 mapping.'',
          ''Defined transition period.''],
       effective_date = ''2026-01-15'',
       compliance_deadline = ''2026-07-15'',
       transition_period = ''6 months'',
       applicable = True,
       impact_level = ''HIGH'',
       harmonization = [''ISO 15189'', ''IMDRF''],
       affected_products = [''Guardant Reveal''],
       rationale = ''Action required within 3 months for new tests.''\<rparr>,
      \<lparr>update_id = 3,
       country = ''Germany'',
       regulation_name = ''EU IVDR Update'',
       reference_number = ''IVDR-2025-03'',
       authority = ''BfArM'',
       summary = ''EU IVDR changes for multi-gene panels.'',
       key_changes =
         [''Expanded scope for NGS panels.'',
          ''New harmonization with ISO 13485.'',
          ''Monitoring only for now.''],
       effective_date = ''2025-11-01'',
       compliance_deadline = ''2026-05-01'',
       transition_period = ''6 months'',
       applicable = False,
       impact_level = ''LOW'',
       harmonization = [''ISO 13485'', ''EU IVDR''],
       affected_products = [],
       rationale = ''Monitoring only; no immediate action.''\<rparr>]"

section \<open>Python primitives used by the program\<close>

text \<open>
  Exceptions are values. \<open>KeyError k\<close> is raised by a dictionary subscript with the
  missing key \<open>k\<close>, \<open>TypeError\<close> by iterating over \<^verbatim>\<open>None\<close>, and
  \<open>Exception msg\<close> is the plain exception of the failure-injection point of the
  analysis. All three are subclasses of Python's \<^verbatim>\<open>Exception\<close>.
\<close>

datatype error = KeyError string | TypeError string | Exception string

text \<open>\<^verbatim>\<open>str(e)\<close>: a \<^verbatim>\<open>KeyError\<close> prints the repr of its key, in single quotes.\<close>

fun str_error :: "error \<Rightarrow> string" where
  "str_error (KeyError k) = [CHR 0x27] @ k @ [CHR 0x27]"
| "str_error (TypeError msg) = msg"
| "str_error (Exception msg) = msg"

text \<open>\<^verbatim>\<open>sep.join(xs)\<close>\<close>

fun join :: "string \<Rightarrow> string list \<Rightarrow> string" where
  "join sep [] = []"
| "join sep [x] = x"
| "join sep (x # y # ys) = x @ sep @ join sep (y # ys)"

text \<open>\<^verbatim>\<open>d.get(k, default)\<close>\<close>

definition dict_get :: "('k \<rightharpoonup> 'v) \<Rightarrow> 'k \<Rightarrow> 'v \<Rightarrow> 'v" where
  "dict_get d k dflt = (case d k of None \<Rightarrow> dflt | Some v \<Rightarrow> v)"

section \<open>The grouping helper\<close>

type_synonym buckets = "string \<rightharpoonup> update list"

definition IMPACT_LEVELS :: "string list" where
  "IMPACT_LEVELS = [''CRITICAL'', ''HIGH'', ''MEDIUM'', ''LOW'']"

definition empty_buckets :: buckets where
  "empty_buckets = [''CRITICAL'' \<mapsto> [], ''HIGH'' \<mapsto> [], ''MEDIUM'' \<mapsto> [], ''LOW'' \<mapsto> []]"

text \<open>
  The loop of \<^verbatim>\<open>group_updates_by_impact\<close>: the subscript
  \<^verbatim>\<open>buckets[update["impact_level"]]\<close> raises \<^verbatim>\<open>KeyError\<close> when the level is
  not a key, and the loop stops there.
\<close>

fun group_loop :: "update list \<Rightarrow> buckets \<Rightarrow> error + buckets" where
  "group_loop [] buckets = Inr buckets"
| "group_loop (update # updates) buckets =
     (case buckets (impact_level update) of
        None \<Rightarrow> Inl (KeyError (impact_level update))
      | Some bucket \<Rightarrow>
          group_loop updates (buckets(impact_level update \<mapsto> bucket @ [update])))"

definition group_updates_by_impact :: "update list \<Rightarrow> error + buckets" where
  "group_updates_by_impact updates = group_loop updates empty_buckets"

section \<open>The report renderer\<close>

text \<open>
  The renderer builds a list of reportlab flowables and hands it to
  \<^verbatim>\<open>doc.build\<close>. The model stops at that list: the PDF serialisation belongs to the
  library. A spacer keeps its width and its height in points, \<open>inch\<close> being 72 points.
  The text of \<^verbatim>\<open>datetime.datetime.now().strftime('%Y-%m-%d %H:%M')\<close> is the
  argument \<open>now\<close>.
\<close>

datatype style = StyleN | StyleH | StyleH2 | StyleH3

datatype flowable = Paragraph string style | Spacer int rat | PageBreak

definition inch :: rat where
  "inch = 72"

definition header_elements :: "string \<Rightarrow> flowable list" where
  "header_elements now =
     [Paragraph ''Guardant Health Regulatory Intelligence - MVP Report'' StyleH,
      Spacer 1 (2 / 10 * inch),
      Paragraph (''Countries: '' @ join '', '' COUNTRIES) StyleN,
      Paragraph (''Products: '' @ join '', '' PRODUCTS) StyleN,
      Spacer 1 (2 / 10 * inch),
      Paragraph (''Generated at: '' @ now) StyleN,
      Spacer 1 (3 / 10 * inch)]"

definition impact_sections :: "(string \<times> string) list" where
  "impact_sections =
     [(''CRITICAL'', ''Critical or High Priority''),
      (''HIGH'', ''High Priority''),
      (''MEDIUM'', ''Medium Priority''),
      (''LOW'', ''Emerging Trends / No Material Changes'')]"

text \<open>The flowables appended for one update (the body of the inner loop).\<close>

definition update_elements ::
  "(int \<rightharpoonup> string) \<Rightarrow> (int \<rightharpoonup> string) \<Rightarrow> update \<Rightarrow> flowable list" where
  "update_elements rationales affected update =
     [Paragraph (''<b>['' @ (if applicable update then ''GUARDANT HEALTH APPLICABLE''
                             else ''NOT DIRECTLY APPLICABLE'') @ '']</b>'') StyleN,
      Paragraph (''<b>Country & Regulation</b>: '' @ country update @ '', '' @
                 regulation_name update @ '' ('' @ reference_number update @ ''), '' @
                 authority update) StyleN,
      Paragraph (''<b>Change Summary</b>: '' @ summary update) StyleN,
      Paragraph ''<b>Key Changes:</b>'' StyleN]
     @ map (\<lambda>change. Paragraph (''- '' @ change) StyleN) (key_changes update)
     @ [Paragraph ''<b>Guardant Health Impact Assessment:</b>'' StyleN,
        Paragraph (''- <b>Impact Level</b>: '' @ impact_level update) StyleN,
        Paragraph (''- <b>Rationale</b>: '' @
                   dict_get rationales (update_id update) (rationale update)) StyleN,
        Paragraph (''- <b>Affected Products or Operations</b>: '' @
                   dict_get affected (update_id update)
                     (join '', '' (affected_products update))) StyleN,
        Paragraph ''<b>Action Required:</b>'' StyleN,
        Paragraph ''1. [Specific compliance step 1]'' StyleN,
        Paragraph ''2. [Specific compliance step 2]'' StyleN,
        Paragraph ''3. [Specific compliance step 3]'' StyleN,
        Paragraph ''<b>Timeline:</b>'' StyleN,
        Paragraph (''- Effective Date: '' @ effective_date update) StyleN,
        Paragraph (''- Compliance Deadline: '' @ compliance_deadline update) StyleN,
        Paragraph (''- Transition Period: '' @ transition_period update) StyleN,
        Paragraph (''<b>Related Standards or Regulations</b>: '' @
                   join '', '' (harmonization update)) StyleN,
        Paragraph (''<b>Cross-Reference:</b> [Links or notes to similar changes in other countries if applicable]'') StyleN,
        Spacer 1 (2 / 10 * inch)]"

fun update_loop ::
  "update list \<Rightarrow> (int \<rightharpoonup> string) \<Rightarrow> (int \<rightharpoonup> string) \<Rightarrow> flowable list \<Rightarrow> flowable list" where
  "update_loop [] rationales affected elements = elements"
| "update_loop (update # section_updates) rationales affected elements =
     update_loop section_updates rationales affected
       (elements @ update_elements rationales affected update)"

text \<open>
  The loop over the impact sections. An empty section appends its placeholder and a
  spacer and goes on to the next section (\<^verbatim>\<open>continue\<close>); only a section with
  updates reaches the \<^verbatim>\<open>PageBreak\<close> at the end of the loop body.
\<close>

fun section_loop ::
  "(string \<times> string) list \<Rightarrow> buckets \<Rightarrow> (int \<rightharpoonup> string) \<Rightarrow> (int \<rightharpoonup> string) \<Rightarrow>
   flowable list \<Rightarrow> error + flowable list" where
  "section_loop [] buckets rationales affected elements = Inr elements"
| "section_loop ((impact, section_title) # sections) buckets rationales affected elements =
     (case buckets impact of
        None \<Rightarrow> Inl (KeyError impact)
      | Some section_updates \<Rightarrow>
          (let elements1 =
                 elements @ [Paragraph section_title StyleH2, Spacer 1 (15 / 100 * inch)]
           in if section_updates = [] then
                section_loop sections buckets rationales affected
                  (elements1 @
                   [Paragraph ''No updates in this section.'' StyleN, Spacer 1 (1 / 10 * inch)])
              else
                section_loop sections buckets rationales affected
                  (update_loop section_updates rationales affected elements1 @ [PageBreak])))"

definition generate_pdf ::
  "string \<Rightarrow> update list \<Rightarrow> (int \<rightharpoonup> string) \<Rightarrow> (int \<rightharpoonup> string) \<Rightarrow> error + flowable list" where
  "generate_pdf now updates rationales affected =
     (case group_updates_by_impact updates of
        Inl e \<Rightarrow> Inl e
      | Inr buckets \<Rightarrow>
          section_loop impact_sections buckets rationales affected (header_elements now))"

section \<open>The workflow\<close>

text \<open>
  \<^verbatim>\<open>st.session_state\<close> is a record of the keys the program stores. The
  initialisation block does not store the key \<^verbatim>\<open>error\<close>, so the field has two
  layers: \<open>None\<close> is the missing key, \<open>Some None\<close> the stored Python
  \<^verbatim>\<open>None\<close> and \<open>Some (Some msg)\<close> a stored message.
\<close>

record session =
  state :: string
  results :: "update list option"
  rationales :: "int \<rightharpoonup> string"
  affected :: "int \<rightharpoonup> string"
  logs :: "string list"
  error :: "string option option"

text \<open>\<^verbatim>\<open>st.session_state.get('error')\<close>\<close>

definition get_error :: "session \<Rightarrow> string option" where
  "get_error s = (case error s of None \<Rightarrow> None | Some v \<Rightarrow> v)"

text \<open>The session after the initialisation block of the first script run.\<close>

definition initial_session :: session where
  "initial_session =
     \<lparr>state = ''Idle'', results = None, rationales = Map.empty, affected = Map.empty,
      logs = [], error = None\<rparr>"

text \<open>
  What one run of the script reads from outside the session: which button was clicked,
  the text held by the widgets of each update (absent when the user typed nothing, the
  widget then returns its default value), the texts produced from the clock, and the
  exception raised at the failure-injection point of the analysis, if any (\<open>None\<close>
  is the program as shipped, with the \<^verbatim>\<open>raise\<close> commented out).
\<close>

record inputs =
  run_clicked :: bool
  download_clicked :: bool
  reset_clicked :: bool
  retry_clicked :: bool
  rationale_widget :: "int \<rightharpoonup> string"
  affected_widget :: "int \<rightharpoonup> string"
  ingestion_time :: string
  parsing_time :: string
  classification_time :: string
  analysis_seconds :: string
  pdf_now :: string
  pdf_seconds :: string
  fault :: "string option"

text \<open>
  \<^verbatim>\<open>render_update_card\<close> returns the values of its two widgets; the markdown it
  writes does not touch the session.
\<close>

definition render_update_card :: "inputs \<Rightarrow> update \<Rightarrow> string \<times> string" where
  "render_update_card inp update =
     (dict_get (rationale_widget inp) (update_id update) (rationale update),
      dict_get (affected_widget inp) (update_id update)
        (join '', '' (affected_products update)))"

fun card_loop :: "inputs \<Rightarrow> update list \<Rightarrow> session \<Rightarrow> session" where
  "card_loop inp [] s = s"
| "card_loop inp (update # bucket) s =
     (case render_update_card inp update of
        (rationale_text, affected_text) \<Rightarrow>
          card_loop inp bucket
            (s\<lparr>rationales := (rationales s)(update_id update \<mapsto> rationale_text),
               affected := (affected s)(update_id update \<mapsto> affected_text)\<rparr>))"

fun expander_loop :: "inputs \<Rightarrow> string list \<Rightarrow> buckets \<Rightarrow> session \<Rightarrow> error + session" where
  "expander_loop inp [] buckets s = Inr s"
| "expander_loop inp (impact # impacts) buckets s =
     (case buckets impact of
        None \<Rightarrow> Inl (KeyError impact)
      | Some bucket \<Rightarrow>
          if bucket \<noteq> [] then expander_loop inp impacts buckets (card_loop inp bucket s)
          else expander_loop inp impacts buckets s)"

text \<open>
  The body of the \<^verbatim>\<open>try\<close> in the Running branch. A raised exception comes with the
  session as the statements before it left it.
\<close>

definition try_body :: "inputs \<Rightarrow> session \<Rightarrow> (error \<times> session) + session" where
  "try_body inp s =
     (let s1 = s\<lparr>logs := logs s @ [''Ingestion started at '' @ ingestion_time inp]\<rparr>;
          s2 = s1\<lparr>logs := logs s1 @ [''Parsing started at '' @ parsing_time inp]\<rparr>;
          s3 = s2\<lparr>logs := logs s2 @
                   [''Classification started at '' @ classification_time inp]\<rparr>
      in case fault inp of
           Some msg \<Rightarrow> Inl (Exception msg, s3)
         | None \<Rightarrow>
             Inr (s3\<lparr>results := Some STUB_UPDATES,
                     logs := logs s3 @
                       [''Analysis complete in '' @ analysis_seconds inp @ '' seconds.''],
                     state := ''Complete'',
                     error := Some None\<rparr>))"

text \<open>\<^verbatim>\<open>except Exception as e\<close>: every value of \<open>error\<close> is an \<^verbatim>\<open>Exception\<close>.\<close>

definition running_branch :: "inputs \<Rightarrow> session \<Rightarrow> session" where
  "running_branch inp s =
     (case try_body inp s of
        Inr s' \<Rightarrow> s'
      | Inl (e, s') \<Rightarrow>
          s'\<lparr>logs := logs s' @ [''Error: '' @ str_error e],
             error := Some (Some (str_error e)),
             state := ''Failure''\<rparr>)"

definition idle_branch :: "inputs \<Rightarrow> session \<Rightarrow> session" where
  "idle_branch inp s =
     (if run_clicked inp then s\<lparr>state := ''Running'', error := Some None\<rparr> else s)"

text \<open>
  The Complete branch. The summary tiles read the same four buckets as the expanders and
  write nothing, so only the expander loop is kept. The flowables returned by
  \<open>generate_pdf\<close> go to the download button; the session keeps the log line only.
\<close>

definition complete_branch :: "inputs \<Rightarrow> session \<Rightarrow> error + session" where
  "complete_branch inp s =
     (case results s of
        None \<Rightarrow> Inl (TypeError ([CHR 0x27] @ ''NoneType'' @ [CHR 0x27] @ '' object is not iterable''))
      | Some updates \<Rightarrow>
          (case group_updates_by_impact updates of
             Inl e \<Rightarrow> Inl e
           | Inr buckets \<Rightarrow>
               (case expander_loop inp IMPACT_LEVELS buckets s of
                  Inl e \<Rightarrow> Inl e
                | Inr s1 \<Rightarrow>
                    (case (if download_clicked inp then
                             (case generate_pdf (pdf_now inp) updates (rationales s1) (affected s1) of
                                Inl e \<Rightarrow> Inl e
                              | Inr pdf_bytes \<Rightarrow>
                                  Inr (s1\<lparr>logs := logs s1 @
                                         [''PDF rendered in '' @ pdf_seconds inp @ '' seconds.'']\<rparr>))
                           else Inr s1) of
                       Inl e \<Rightarrow> Inl e
                     | Inr s2 \<Rightarrow>
                         if reset_clicked inp then
                           Inr (s2\<lparr>state := ''Idle'', results := None,
                                   rationales := Map.empty, affected := Map.empty,
                                   logs := [], error := Some None\<rparr>)
                         else Inr s2))))"

definition failure_branch :: "inputs \<Rightarrow> session \<Rightarrow> session" where
  "failure_branch inp s =
     (if retry_clicked inp then s\<lparr>state := ''Idle'', error := Some None\<rparr> else s)"

text \<open>The final \<^verbatim>\<open>else\<close>: a state that is none of the four.\<close>

definition other_branch :: "inputs \<Rightarrow> session \<Rightarrow> session" where
  "other_branch inp s = (if retry_clicked inp then s\<lparr>state := ''Idle''\<rparr> else s)"

text \<open>
  One run of the script on an initialised session, up to its end or to the
  \<^verbatim>\<open>st.experimental_rerun()\<close> that ends it: the call stops the run and Streamlit
  starts the next one, so nothing after it in a branch is executed and the
  \<^verbatim>\<open>except\<close> clause does not see it. The sidebar only displays the log.
\<close>

definition script_run :: "inputs \<Rightarrow> session \<Rightarrow> error + session" where
  "script_run inp s =
     (if state s = ''Idle'' then Inr (idle_branch inp s)
      else if state s = ''Running'' then Inr (running_branch inp s)
      else if state s = ''Complete'' then complete_branch inp s
      else if state s = ''Failure'' then Inr (failure_branch inp s)
      else Inr (other_branch inp s))"

text \<open>The sessions the program can be in: the initial one, and those a run leads to.\<close>

inductive reachable :: "session \<Rightarrow> bool" where
  reachable_initial: "reachable initial_session"
| reachable_run: "reachable s \<Longrightarrow> script_run inp s = Inr s' \<Longrightarrow> reachable s'"

section \<open>Sample inputs and sessions\<close>

text \<open>
  A run in which nothing is clicked or typed and the analysis does not fail, and the
  sessions of a first use of the program: after the click on "Run Analysis", after the
  analysis, and after an analysis stopped by the injected failure.
\<close>

definition quiet_inputs :: inputs where
  "quiet_inputs =
     \<lparr>run_clicked = False, download_clicked = False, reset_clicked = False,
      retry_clicked = False, rationale_widget = Map.empty, affected_widget = Map.empty,
      ingestion_time = ''09:00:00'', parsing_time = ''09:00:01'',
      classification_time = ''09:00:01'', analysis_seconds = ''1.50'',
      pdf_now = ''2025-06-01 09:00'', pdf_seconds = ''0.02'', fault = None\<rparr>"

definition running_session :: session where
  "running_session = initial_session\<lparr>state := ''Running'', error := Some None\<rparr>"

definition complete_session :: session where
  "complete_session =
     \<lparr>state = ''Complete'', results = Some STUB_UPDATES, rationales = Map.empty,
      affected = Map.empty,
      logs = [''Ingestion started at 09:00:00'', ''Parsing started at 09:00:01'',
              ''Classification started at 09:00:01'', ''Analysis complete in 1.50 seconds.''],
      error = Some None\<rparr>"

definition failure_session :: session where
  "failure_session =
     \<lparr>state = ''Failure'', results = None, rationales = Map.empty, affected = Map.empty,
      logs = [''Ingestion started at 09:00:00'', ''Parsing started at 09:00:01'',
              ''Classification started at 09:00:01'', ''Error: Simulated analysis failure.''],
      error = Some (Some ''Simulated analysis failure.'')\<rparr>"

text \<open>
  The invariant of the workflow: the result set is the seeded list exactly in state
  Complete, and an error message is stored exactly in state Failure.
\<close>

definition session_inv :: "session \<Rightarrow> bool" where
  "session_inv s \<longleftrightarrow>
     (state s = ''Complete'' \<and> results s = Some STUB_UPDATES \<and> get_error s = None) \<or>
     ((state s = ''Idle'' \<or> state s = ''Running'') \<and> results s = None \<and> get_error s = None) \<or>
     (state s = ''Failure'' \<and> results s = None \<and> get_error s \<noteq> None)"

section \<open>Properties of the grouping helper\<close>

lemma group_loop_ok:
  "\<forall>u\<in>set us. impact_level u \<in> dom b \<Longrightarrow>
   group_loop us b =
     Inr (\<lambda>lvl. case b lvl of None \<Rightarrow> None
                 | Some xs \<Rightarrow> Some (xs @ filter (\<lambda>u. impact_level u = lvl) us))"
proof (induction us arbitrary: b)
  case Nil
  show ?case by (auto split: option.splits)
next
  case (Cons u us)
  from Cons.prems obtain bk where bk: "b (impact_level u) = Some bk" by auto
  have "\<forall>v\<in>set us. impact_level v \<in> dom (b(impact_level u \<mapsto> bk @ [u]))"
    using Cons.prems by auto
  from Cons.IH[OF this]
  have "group_loop us (b(impact_level u \<mapsto> bk @ [u])) =
          Inr (\<lambda>lvl. case (b(impact_level u \<mapsto> bk @ [u])) lvl of None \<Rightarrow> None
                 | Some xs \<Rightarrow> Some (xs @ filter (\<lambda>u. impact_level u = lvl) us))" .
  moreover have "(\<lambda>lvl. case (b(impact_level u \<mapsto> bk @ [u])) lvl of None \<Rightarrow> None
                 | Some xs \<Rightarrow> Some (xs @ filter (\<lambda>u. impact_level u = lvl) us)) =
        (\<lambda>lvl. case b lvl of None \<Rightarrow> None
                 | Some xs \<Rightarrow> Some (xs @ filter (\<lambda>v. impact_level v = lvl) (u # us)))"
    using bk by (auto simp: fun_eq_iff split: option.splits)
  moreover have "group_loop (u # us) b = group_loop us (b(impact_level u \<mapsto> bk @ [u]))"
    using bk by simp
  ultimately show ?case by simp
qed

lemma group_loop_fail:
  "\<not> (\<forall>u\<in>set us. impact_level u \<in> dom b) \<Longrightarrow>
   \<exists>k. k \<notin> dom b \<and> k \<in> impact_level ` set us \<and> group_loop us b = Inl (KeyError k)"
proof (induction us arbitrary: b)
  case Nil
  then show ?case by simp
next
  case (Cons u us)
  show ?case
  proof (cases "b (impact_level u)")
    case None
    then show ?thesis by auto
  next
    case (Some bk)
    let ?b = "b(impact_level u \<mapsto> bk @ [u])"
    have d: "dom ?b = dom b" using Some by auto
    have "\<not> (\<forall>v\<in>set us. impact_level v \<in> dom ?b)"
      using Cons.prems Some d by auto
    from Cons.IH[OF this] obtain k where
      "k \<notin> dom ?b" "k \<in> impact_level ` set us" "group_loop us ?b = Inl (KeyError k)" by blast
    then show ?thesis using Some d by auto
  qed
qed

lemma dom_empty_buckets: "dom empty_buckets = set IMPACT_LEVELS"
  by (auto simp: empty_buckets_def IMPACT_LEVELS_def split: if_splits)

lemma empty_buckets_apply:
  "empty_buckets lvl = (if lvl \<in> set IMPACT_LEVELS then Some [] else None)"
  by (simp add: empty_buckets_def IMPACT_LEVELS_def)

lemma group_updates_by_impact_ok:
  assumes "set (map impact_level updates) \<subseteq> set IMPACT_LEVELS"
  shows "group_updates_by_impact updates =
           Inr (\<lambda>lvl. if lvl \<in> set IMPACT_LEVELS
                       then Some (filter (\<lambda>u. impact_level u = lvl) updates) else None)"
proof -
  have "\<forall>u\<in>set updates. impact_level u \<in> dom empty_buckets"
    using assms by (auto simp: dom_empty_buckets)
  from group_loop_ok[OF this] show ?thesis
    unfolding group_updates_by_impact_def
    by (simp add: empty_buckets_apply fun_eq_iff)
qed

lemma group_updates_by_impact_fail:
  assumes "\<not> set (map impact_level updates) \<subseteq> set IMPACT_LEVELS"
  shows "\<exists>k. k \<notin> set IMPACT_LEVELS \<and> k \<in> set (map impact_level updates) \<and>
             group_updates_by_impact updates = Inl (KeyError k)"
proof -
  have "\<not> (\<forall>u\<in>set updates. impact_level u \<in> dom empty_buckets)"
    using assms by (auto simp: dom_empty_buckets)
  from group_loop_fail[OF this] show ?thesis
    unfolding group_updates_by_impact_def by (auto simp: dom_empty_buckets)
qed

lemma stub_levels: "set (map impact_level STUB_UPDATES) \<subseteq> set IMPACT_LEVELS"
  by (simp add: STUB_UPDATES_def IMPACT_LEVELS_def)

text \<open>
  Claim C4. For every list of updates whose impact levels are all among CRITICAL, HIGH,
  MEDIUM and LOW, the grouping helper returns exactly four buckets, one per level; the
  bucket of a level holds the updates of that level in the order of the input list, so
  every update is in the bucket named by its level.
\<close>

theorem group_updates_by_impact_partition:
  assumes "set (map impact_level updates) \<subseteq> set IMPACT_LEVELS"
  shows "\<exists>buckets. group_updates_by_impact updates = Inr buckets \<and>
           dom buckets = set IMPACT_LEVELS \<and>
           (\<forall>lvl\<in>set IMPACT_LEVELS.
              buckets lvl = Some (filter (\<lambda>u. impact_level u = lvl) updates)) \<and>
           (\<forall>u\<in>set updates. \<exists>bucket. buckets (impact_level u) = Some bucket \<and> u \<in> set bucket)"
proof -
  let ?b = "\<lambda>lvl. if lvl \<in> set IMPACT_LEVELS
                       then Some (filter (\<lambda>u. impact_level u = lvl) updates) else None"
  have 1: "group_updates_by_impact updates = Inr ?b"
    by (rule group_updates_by_impact_ok[OF assms])
  have 2: "dom ?b = set IMPACT_LEVELS" by (auto split: if_splits)
  have 3: "\<forall>u\<in>set updates. \<exists>bucket. ?b (impact_level u) = Some bucket \<and> u \<in> set bucket"
    using assms by auto
  show ?thesis using 1 2 3 by (intro exI[of _ ?b]) simp
qed

theorem group_updates_by_impact_partition_witness:
  "set (map impact_level STUB_UPDATES) \<subseteq> set IMPACT_LEVELS \<and>
   (\<exists>buckets. group_updates_by_impact STUB_UPDATES = Inr buckets \<and>
      buckets ''CRITICAL'' = Some [STUB_UPDATES ! 0] \<and>
      buckets ''HIGH'' = Some [STUB_UPDATES ! 1] \<and>
      buckets ''MEDIUM'' = Some [] \<and>
      buckets ''LOW'' = Some [STUB_UPDATES ! 2])"
proof -
  from group_updates_by_impact_partition[OF stub_levels] obtain buckets where
    g: "group_updates_by_impact STUB_UPDATES = Inr buckets" and
    f: "\<forall>lvl\<in>set IMPACT_LEVELS.
              buckets lvl = Some (filter (\<lambda>u. impact_level u = lvl) STUB_UPDATES)" by blast
  have "buckets ''CRITICAL'' = Some [STUB_UPDATES ! 0]"
       "buckets ''HIGH'' = Some [STUB_UPDATES ! 1]"
       "buckets ''MEDIUM'' = Some []"
       "buckets ''LOW'' = Some [STUB_UPDATES ! 2]"
    using f by (simp_all add: IMPACT_LEVELS_def STUB_UPDATES_def)
  with g stub_levels show ?thesis by blast
qed

text \<open>
  Claim C5. The grouping helper returns its buckets when every impact level of the input
  is one of the four recognised ones, and only then: an input with an unrecognised level
  makes it raise \<^verbatim>\<open>KeyError\<close> for such a level, since no bucket has that key.
\<close>

theorem group_updates_by_impact_total_iff_recognised:
  "(set (map impact_level updates) \<subseteq> set IMPACT_LEVELS \<longrightarrow>
      (\<exists>buckets. group_updates_by_impact updates = Inr buckets)) \<and>
   (\<not> set (map impact_level updates) \<subseteq> set IMPACT_LEVELS \<longrightarrow>
      (\<exists>k. k \<notin> set IMPACT_LEVELS \<and> k \<in> set (map impact_level updates) \<and>
           group_updates_by_impact updates = Inl (KeyError k)))"
  using group_updates_by_impact_ok[of updates] group_updates_by_impact_fail[of updates]
  by blast

theorem group_updates_by_impact_total_iff_recognised_witness:
  "set (map impact_level STUB_UPDATES) \<subseteq> set IMPACT_LEVELS \<and>
   (\<exists>buckets. group_updates_by_impact STUB_UPDATES = Inr buckets) \<and>
   \<not> set (map impact_level [(STUB_UPDATES ! 0)\<lparr>impact_level := ''URGENT''\<rparr>])
        \<subseteq> set IMPACT_LEVELS \<and>
   group_updates_by_impact [(STUB_UPDATES ! 0)\<lparr>impact_level := ''URGENT''\<rparr>] =
     Inl (KeyError ''URGENT'')"
proof -
  have bad: "\<not> set (map impact_level [(STUB_UPDATES ! 0)\<lparr>impact_level := ''URGENT''\<rparr>])
        \<subseteq> set IMPACT_LEVELS"
    by (simp add: IMPACT_LEVELS_def)
  from group_updates_by_impact_total_iff_recognised
         [of "[(STUB_UPDATES ! 0)\<lparr>impact_level := ''URGENT''\<rparr>]"] bad
  have "group_updates_by_impact [(STUB_UPDATES ! 0)\<lparr>impact_level := ''URGENT''\<rparr>] =
     Inl (KeyError ''URGENT'')" by auto
  with bad stub_levels group_updates_by_impact_total_iff_recognised[of STUB_UPDATES]
  show ?thesis by blast
qed

section \<open>Properties of the report renderer\<close>

lemma update_loop_eq:
  "update_loop us rs af els = els @ concat (map (update_elements rs af) us)"
  by (induction us arbitrary: els) simp_all

lemma section_loop_eq:
  assumes "\<forall>(impact, title)\<in>set secs. b impact = Some (f impact)"
  shows "section_loop secs b rs af els =
           Inr (els @ concat (map (\<lambda>(impact, section_title).
                  [Paragraph section_title StyleH2, Spacer 1 (15 / 100 * inch)] @
                  (if f impact = [] then
                     [Paragraph ''No updates in this section.'' StyleN, Spacer 1 (1 / 10 * inch)]
                   else concat (map (update_elements rs af) (f impact)) @ [PageBreak])) secs))"
  using assms
proof (induction secs arbitrary: els)
  case Nil
  show ?case by simp
next
  case (Cons sec secs)
  obtain impact title where sec: "sec = (impact, title)" by (cases sec)
  have b: "b impact = Some (f impact)" using Cons.prems sec by simp
  have rest: "\<forall>(impact, title)\<in>set secs. b impact = Some (f impact)"
    using Cons.prems by simp
  show ?case
    unfolding sec using b Cons.IH[OF rest]
    by (simp add: update_loop_eq Let_def)
qed

lemma impact_sections_levels: "map fst impact_sections = IMPACT_LEVELS"
  by (simp add: impact_sections_def IMPACT_LEVELS_def)

lemma generate_pdf_ok:
  assumes "set (map impact_level updates) \<subseteq> set IMPACT_LEVELS"
  shows "generate_pdf now updates rs af =
           Inr (header_elements now @ concat (map (\<lambda>(impact, section_title).
                  [Paragraph section_title StyleH2, Spacer 1 (15 / 100 * inch)] @
                  (if filter (\<lambda>u. impact_level u = impact) updates = [] then
                     [Paragraph ''No updates in this section.'' StyleN, Spacer 1 (1 / 10 * inch)]
                   else concat (map (update_elements rs af)
                          (filter (\<lambda>u. impact_level u = impact) updates)) @ [PageBreak]))
                impact_sections))"
proof -
  let ?b = "\<lambda>lvl. if lvl \<in> set IMPACT_LEVELS
                       then Some (filter (\<lambda>u. impact_level u = lvl) updates) else None"
  have g: "group_updates_by_impact updates = Inr ?b"
    by (rule group_updates_by_impact_ok[OF assms])
  have "\<forall>(impact, title)\<in>set impact_sections.
          ?b impact = Some (filter (\<lambda>u. impact_level u = impact) updates)"
    by (simp add: impact_sections_def IMPACT_LEVELS_def)
  from section_loop_eq[of impact_sections ?b
         "\<lambda>impact. filter (\<lambda>u. impact_level u = impact) updates", OF this]
  show ?thesis unfolding generate_pdf_def g by simp
qed

lemma update_elements_rationale:
  "update_elements rs af u ! (6 + length (key_changes u)) =
     Paragraph (''- <b>Rationale</b>: '' @
       (case rs (update_id u) of Some v \<Rightarrow> v | None \<Rightarrow> rationale u)) StyleN"
  by (simp add: update_elements_def nth_append dict_get_def split: option.splits)

lemma update_elements_affected:
  "update_elements rs af u ! (7 + length (key_changes u)) =
     Paragraph (''- <b>Affected Products or Operations</b>: '' @
       (case af (update_id u) of Some v \<Rightarrow> v
        | None \<Rightarrow> join '', '' (affected_products u))) StyleN"
  by (simp add: update_elements_def nth_append dict_get_def split: option.splits)

lemma concat_map_split:
  assumes "x \<in> set xs"
  shows "\<exists>pre post. concat (map f xs) = pre @ f x @ post"
proof -
  from assms obtain ys zs where "xs = ys @ x # zs" by (auto dest: split_list)
  then have "concat (map f xs) = concat (map f ys) @ f x @ concat (map f zs)" by simp
  then show ?thesis by blast
qed

lemma length_update_elements:
  "length (update_elements rs af u) = 19 + length (key_changes u)"
  by (simp add: update_elements_def)

lemma count_PageBreak_changes:
  "count_list (map (\<lambda>change. Paragraph (f change) StyleN) xs) PageBreak = 0"
  by (induction xs) simp_all

lemma count_PageBreak_update_elements:
  "count_list (update_elements rs af u) PageBreak = 0"
  by (simp add: update_elements_def count_PageBreak_changes)

text \<open>The report of the seeded updates, for any edit maps.\<close>

lemma stub_report:
  "generate_pdf now STUB_UPDATES rs af =
     Inr ((header_elements now @
           [Paragraph ''Critical or High Priority'' StyleH2, Spacer 1 (15 / 100 * inch)] @
           update_elements rs af (STUB_UPDATES ! 0) @ [PageBreak] @
           [Paragraph ''High Priority'' StyleH2, Spacer 1 (15 / 100 * inch)] @
           update_elements rs af (STUB_UPDATES ! 1) @ [PageBreak]) @
          ([Paragraph ''Medium Priority'' StyleH2, Spacer 1 (15 / 100 * inch),
            Paragraph ''No updates in this section.'' StyleN, Spacer 1 (1 / 10 * inch),
            Paragraph ''Emerging Trends / No Material Changes'' StyleH2,
            Spacer 1 (15 / 100 * inch)] @
           update_elements rs af (STUB_UPDATES ! 2) @ [PageBreak]))"
proof -
  have f: "filter (\<lambda>u. impact_level u = ''CRITICAL'') STUB_UPDATES = [STUB_UPDATES ! 0]"
          "filter (\<lambda>u. impact_level u = ''HIGH'') STUB_UPDATES = [STUB_UPDATES ! 1]"
          "filter (\<lambda>u. impact_level u = ''MEDIUM'') STUB_UPDATES = []"
          "filter (\<lambda>u. impact_level u = ''LOW'') STUB_UPDATES = [STUB_UPDATES ! 2]"
    by (simp_all add: STUB_UPDATES_def)
  show ?thesis
    by (simp add: generate_pdf_ok[OF stub_levels] impact_sections_def f)
qed

text \<open>
  Claim C1. For every update of a rendered set (all impact levels recognised), the
  document contains the block of that update, and in the block the rationale line shows
  the value of the rationale edit map at the update's identifier when the identifier is
  a key, the update's own rationale otherwise; the affected-products line shows the
  value of the affected-products edit map when the identifier is a key, and otherwise
  the update's affected products joined with ", ". The edited text is inserted as it is.
\<close>

theorem generate_pdf_edit_map_or_default:
  assumes "set (map impact_level updates) \<subseteq> set IMPACT_LEVELS" and "u \<in> set updates"
  shows "\<exists>elements before after.
           generate_pdf now updates rs af = Inr elements \<and>
           elements = before @ update_elements rs af u @ after \<and>
           update_elements rs af u ! (6 + length (key_changes u)) =
             Paragraph (''- <b>Rationale</b>: '' @
               (case rs (update_id u) of Some v \<Rightarrow> v | None \<Rightarrow> rationale u)) StyleN \<and>
           update_elements rs af u ! (7 + length (key_changes u)) =
             Paragraph (''- <b>Affected Products or Operations</b>: '' @
               (case af (update_id u) of Some v \<Rightarrow> v
                | None \<Rightarrow> join '', '' (affected_products u))) StyleN"
proof -
  let ?sec = "\<lambda>(impact, section_title).
                  [Paragraph section_title StyleH2, Spacer 1 (15 / 100 * inch)] @
                  (if filter (\<lambda>u. impact_level u = impact) updates = [] then
                     [Paragraph ''No updates in this section.'' StyleN, Spacer 1 (1 / 10 * inch)]
                   else concat (map (update_elements rs af)
                          (filter (\<lambda>u. impact_level u = impact) updates)) @ [PageBreak])"
  have g: "generate_pdf now updates rs af =
             Inr (header_elements now @ concat (map ?sec impact_sections))"
    by (rule generate_pdf_ok[OF assms(1)])
  have "impact_level u \<in> set (map fst impact_sections)"
    using assms by (auto simp: impact_sections_levels)
  then obtain title where t: "(impact_level u, title) \<in> set impact_sections" by auto
  from concat_map_split[OF t, of ?sec] obtain p1 q1 where
    1: "concat (map ?sec impact_sections) = p1 @ ?sec (impact_level u, title) @ q1" by blast
  let ?f = "filter (\<lambda>v. impact_level v = impact_level u) updates"
  have mem: "u \<in> set ?f" using assms(2) by simp
  have ne: "?f \<noteq> []"
    by (rule length_greater_0_conv[THEN iffD1, OF length_pos_if_in_set[OF mem]])
  from concat_map_split[OF mem, of "update_elements rs af"] obtain p2 q2 where
    2: "concat (map (update_elements rs af) ?f) = p2 @ update_elements rs af u @ q2" by blast
  have "?sec (impact_level u, title) =
          ([Paragraph title StyleH2, Spacer 1 (15 / 100 * inch)] @ p2) @
          update_elements rs af u @ (q2 @ [PageBreak])"
    using ne 2 by simp
  with 1 have "header_elements now @ concat (map ?sec impact_sections) =
      (header_elements now @ p1 @ [Paragraph title StyleH2, Spacer 1 (15 / 100 * inch)] @ p2) @
      update_elements rs af u @ (q2 @ [PageBreak] @ q1)" by simp
  with g show ?thesis
    using update_elements_rationale[of rs af u] update_elements_affected[of rs af u] by blast
qed

theorem generate_pdf_edit_map_or_default_witness:
  "set (map impact_level STUB_UPDATES) \<subseteq> set IMPACT_LEVELS \<and>
   STUB_UPDATES ! 0 \<in> set STUB_UPDATES \<and>
   (\<exists>elements before after.
      generate_pdf ''2025-06-01 09:00'' STUB_UPDATES Map.empty [1 \<mapsto> ''Shield''] = Inr elements \<and>
      elements = before @ update_elements Map.empty [1 \<mapsto> ''Shield''] (STUB_UPDATES ! 0) @ after \<and>
      update_elements Map.empty [1 \<mapsto> ''Shield''] (STUB_UPDATES ! 0) ! 9 =
        Paragraph ''- <b>Rationale</b>: Immediate compliance required for NGS-based tests.'' StyleN \<and>
      update_elements Map.empty [1 \<mapsto> ''Shield''] (STUB_UPDATES ! 0) ! 10 =
        Paragraph ''- <b>Affected Products or Operations</b>: Shield'' StyleN)"
proof -
  have m: "STUB_UPDATES ! 0 \<in> set STUB_UPDATES" by (simp add: STUB_UPDATES_def)
  have v: "6 + length (key_changes (STUB_UPDATES ! 0)) = 9"
          "7 + length (key_changes (STUB_UPDATES ! 0)) = 10"
          "update_id (STUB_UPDATES ! 0) = 1"
          "rationale (STUB_UPDATES ! 0) = ''Immediate compliance required for NGS-based tests.''"
    by (simp_all add: STUB_UPDATES_def)
  from generate_pdf_edit_map_or_default
         [OF stub_levels m, of "''2025-06-01 09:00''" Map.empty "[1 \<mapsto> ''Shield'']"]
  show ?thesis using stub_levels m unfolding v by simp
qed

text \<open>
  The report of the three seeded updates (levels CRITICAL, HIGH and LOW): the empty
  MEDIUM section starts at position 57, and its placeholder and spacer are followed by
  the heading of the LOW section, not by a page break; the document has four sections
  and three page breaks.
\<close>

theorem generate_pdf_empty_section_no_page_break:
  "\<not> isl (generate_pdf ''2025-06-01 09:00'' STUB_UPDATES Map.empty Map.empty) \<and>
   take 5 (drop 57 (projr (generate_pdf ''2025-06-01 09:00'' STUB_UPDATES Map.empty Map.empty))) =
     [Paragraph ''Medium Priority'' StyleH2, Spacer 1 (15 / 100 * inch),
      Paragraph ''No updates in this section.'' StyleN, Spacer 1 (1 / 10 * inch),
      Paragraph ''Emerging Trends / No Material Changes'' StyleH2] \<and>
   count_list (projr (generate_pdf ''2025-06-01 09:00'' STUB_UPDATES Map.empty Map.empty))
     PageBreak = 3"
proof -
  define P where "P = header_elements ''2025-06-01 09:00'' @
           [Paragraph ''Critical or High Priority'' StyleH2, Spacer 1 (15 / 100 * inch)] @
           update_elements Map.empty Map.empty (STUB_UPDATES ! 0) @ [PageBreak] @
           [Paragraph ''High Priority'' StyleH2, Spacer 1 (15 / 100 * inch)] @
           update_elements Map.empty Map.empty (STUB_UPDATES ! 1) @ [PageBreak]"
  define M where "M = [Paragraph ''Medium Priority'' StyleH2, Spacer 1 (15 / 100 * inch),
            Paragraph ''No updates in this section.'' StyleN, Spacer 1 (1 / 10 * inch),
            Paragraph ''Emerging Trends / No Material Changes'' StyleH2,
            Spacer 1 (15 / 100 * inch)] @
           update_elements Map.empty Map.empty (STUB_UPDATES ! 2) @ [PageBreak]"
  have g: "generate_pdf ''2025-06-01 09:00'' STUB_UPDATES Map.empty Map.empty = Inr (P @ M)"
    unfolding P_def M_def by (rule stub_report)
  have lp: "length P = 57"
    unfolding P_def
    by (simp add: header_elements_def length_update_elements STUB_UPDATES_def)
  have t: "take 5 (drop 57 (P @ M)) = take 5 M"
    using lp by simp
  have m: "take 5 M = [Paragraph ''Medium Priority'' StyleH2, Spacer 1 (15 / 100 * inch),
      Paragraph ''No updates in this section.'' StyleN, Spacer 1 (1 / 10 * inch),
      Paragraph ''Emerging Trends / No Material Changes'' StyleH2]"
    unfolding M_def by simp
  have cp: "count_list P PageBreak = 2"
    unfolding P_def
    by (simp add: header_elements_def count_PageBreak_update_elements)
  have cm: "count_list M PageBreak = 1"
    unfolding M_def by (simp add: count_PageBreak_update_elements)
  show ?thesis
    unfolding g using t m cp cm by simp
qed

text \<open>
  Claim C2, as amended. For every list of updates whose impact levels are all
  recognised, the document is the header followed by the four sections in the order
  CRITICAL, HIGH, MEDIUM, LOW. Each section starts with its title and a spacer. A section
  with no update continues with the line "No updates in this section." and a spacer, and
  has no page break; a section with updates continues with the blocks of its updates,
  in input order, and ends with a page break.
\<close>

theorem generate_pdf_sections:
  assumes "set (map impact_level updates) \<subseteq> set IMPACT_LEVELS"
  shows "let section = (\<lambda>impact section_title.
               [Paragraph section_title StyleH2, Spacer 1 (15 / 100 * inch)] @
               (if filter (\<lambda>u. impact_level u = impact) updates = [] then
                  [Paragraph ''No updates in this section.'' StyleN, Spacer 1 (1 / 10 * inch)]
                else concat (map (update_elements rs af)
                       (filter (\<lambda>u. impact_level u = impact) updates)) @ [PageBreak]))
         in generate_pdf now updates rs af =
              Inr (header_elements now @
                   section ''CRITICAL'' ''Critical or High Priority'' @
                   section ''HIGH'' ''High Priority'' @
                   section ''MEDIUM'' ''Medium Priority'' @
                   section ''LOW'' ''Emerging Trends / No Material Changes'')"
  using generate_pdf_ok[OF assms, of now rs af]
  by (simp add: impact_sections_def Let_def)

theorem generate_pdf_sections_witness:
  "set (map impact_level STUB_UPDATES) \<subseteq> set IMPACT_LEVELS \<and>
   generate_pdf ''2025-06-01 09:00'' STUB_UPDATES Map.empty Map.empty =
     Inr (header_elements ''2025-06-01 09:00'' @
          [Paragraph ''Critical or High Priority'' StyleH2, Spacer 1 (15 / 100 * inch)] @
          update_elements Map.empty Map.empty (STUB_UPDATES ! 0) @ [PageBreak] @
          [Paragraph ''High Priority'' StyleH2, Spacer 1 (15 / 100 * inch)] @
          update_elements Map.empty Map.empty (STUB_UPDATES ! 1) @ [PageBreak] @
          [Paragraph ''Medium Priority'' StyleH2, Spacer 1 (15 / 100 * inch),
           Paragraph ''No updates in this section.'' StyleN, Spacer 1 (1 / 10 * inch)] @
          [Paragraph ''Emerging Trends / No Material Changes'' StyleH2,
           Spacer 1 (15 / 100 * inch)] @
          update_elements Map.empty Map.empty (STUB_UPDATES ! 2) @ [PageBreak])"
proof -
  have f: "filter (\<lambda>u. impact_level u = ''CRITICAL'') STUB_UPDATES = [STUB_UPDATES ! 0]"
          "filter (\<lambda>u. impact_level u = ''HIGH'') STUB_UPDATES = [STUB_UPDATES ! 1]"
          "filter (\<lambda>u. impact_level u = ''MEDIUM'') STUB_UPDATES = []"
          "filter (\<lambda>u. impact_level u = ''LOW'') STUB_UPDATES = [STUB_UPDATES ! 2]"
    by (simp_all add: STUB_UPDATES_def)
  show ?thesis
    using stub_levels
      generate_pdf_sections[OF stub_levels, of Map.empty Map.empty "''2025-06-01 09:00''"]
    by (simp add: Let_def f)
qed

section \<open>Properties of the workflow\<close>

lemma card_loop_fields:
  "state (card_loop inp us s) = state s \<and> results (card_loop inp us s) = results s \<and>
   logs (card_loop inp us s) = logs s \<and> error (card_loop inp us s) = error s"
  by (induction us arbitrary: s) (simp_all add: render_update_card_def)

lemma expander_loop_fields:
  "expander_loop inp impacts b s = Inr s' \<Longrightarrow>
   state s' = state s \<and> results s' = results s \<and> logs s' = logs s \<and> error s' = error s"
proof (induction impacts arbitrary: s)
  case Nil
  then show ?case by simp
next
  case (Cons impact impacts)
  then show ?case
    by (fastforce simp: card_loop_fields split: option.splits if_splits)
qed

lemma expander_loop_total:
  "set impacts \<subseteq> dom b \<Longrightarrow> \<exists>s'. expander_loop inp impacts b s = Inr s'"
  by (induction impacts arbitrary: s) auto

text \<open>
  The Complete branch on a result set with recognised levels: the expanders leave a
  session \<open>s1\<close> that differs from \<open>s\<close> in the edit maps only, and no lookup fails.
\<close>

lemma complete_branch_ok:
  assumes r: "results s = Some ups" and l: "set (map impact_level ups) \<subseteq> set IMPACT_LEVELS"
  shows "\<exists>s1. state s1 = state s \<and> results s1 = results s \<and> logs s1 = logs s \<and>
              error s1 = error s \<and>
           complete_branch inp s =
             Inr (let s2 = (if download_clicked inp
                            then s1\<lparr>logs := logs s1 @
                                   [''PDF rendered in '' @ pdf_seconds inp @ '' seconds.'']\<rparr>
                            else s1)
                  in if reset_clicked inp
                     then s2\<lparr>state := ''Idle'', results := None, rationales := Map.empty,
                             affected := Map.empty, logs := [], error := Some None\<rparr>
                     else s2)"
proof -
  let ?b = "\<lambda>lvl. if lvl \<in> set IMPACT_LEVELS
                       then Some (filter (\<lambda>u. impact_level u = lvl) ups) else None"
  have g: "group_updates_by_impact ups = Inr ?b"
    by (rule group_updates_by_impact_ok[OF l])
  have "set IMPACT_LEVELS \<subseteq> dom ?b" by (auto split: if_splits)
  from expander_loop_total[OF this] obtain s1 where
    e: "expander_loop inp IMPACT_LEVELS ?b s = Inr s1" by blast
  from generate_pdf_ok[OF l] obtain els where
    p: "generate_pdf (pdf_now inp) ups (rationales s1) (affected s1) = Inr els" by blast
  have "complete_branch inp s =
             Inr (let s2 = (if download_clicked inp
                            then s1\<lparr>logs := logs s1 @
                                   [''PDF rendered in '' @ pdf_seconds inp @ '' seconds.'']\<rparr>
                            else s1)
                  in if reset_clicked inp
                     then s2\<lparr>state := ''Idle'', results := None, rationales := Map.empty,
                             affected := Map.empty, logs := [], error := Some None\<rparr>
                     else s2)"
    using e p by (simp add: complete_branch_def r g Let_def)
  with expander_loop_fields[OF e] show ?thesis by blast
qed

lemma script_run_inv:
  assumes "session_inv s" and "script_run inp s = Inr s'"
  shows "session_inv s'"
proof -
  consider (idle) "state s = ''Idle''" | (running) "state s = ''Running''"
    | (complete) "state s = ''Complete''" | (failure) "state s = ''Failure''"
    using assms(1) by (auto simp: session_inv_def)
  then show ?thesis
  proof cases
    case idle
    then show ?thesis using assms
      by (auto simp: session_inv_def get_error_def script_run_def idle_branch_def
               split: if_splits)
  next
    case running
    then have r: "results s = None"
      using assms(1) by (auto simp: session_inv_def)
    have s': "s' = running_branch inp s"
      using running assms(2) by (simp add: script_run_def)
    show ?thesis
    proof (cases "fault inp")
      case None
      then have "state s' = ''Complete''" "results s' = Some STUB_UPDATES" "get_error s' = None"
        by (simp_all add: s' running_branch_def try_body_def Let_def get_error_def)
      then show ?thesis by (simp add: session_inv_def)
    next
      case (Some msg)
      then have "state s' = ''Failure''" "results s' = None" "get_error s' \<noteq> None"
        using r by (simp_all add: s' running_branch_def try_body_def Let_def get_error_def)
      then show ?thesis by (simp add: session_inv_def)
    qed
  next
    case complete
    then have r: "results s = Some STUB_UPDATES" and e: "get_error s = None"
      using assms(1) by (auto simp: session_inv_def)
    from complete_branch_ok[OF r stub_levels, of inp] obtain s1 where
      f: "state s1 = state s" "results s1 = results s" "error s1 = error s"
      and c: "complete_branch inp s =
             Inr (let s2 = (if download_clicked inp
                            then s1\<lparr>logs := logs s1 @
                                   [''PDF rendered in '' @ pdf_seconds inp @ '' seconds.'']\<rparr>
                            else s1)
                  in if reset_clicked inp
                     then s2\<lparr>state := ''Idle'', results := None, rationales := Map.empty,
                             affected := Map.empty, logs := [], error := Some None\<rparr>
                     else s2)" by blast
    have "script_run inp s = complete_branch inp s"
      using complete by (simp add: script_run_def)
    with c assms(2) show ?thesis
      using f r e complete
      by (auto simp: session_inv_def get_error_def Let_def split: if_splits)
  next
    case failure
    then show ?thesis using assms
      by (auto simp: session_inv_def get_error_def script_run_def failure_branch_def
               split: if_splits)
  qed
qed

lemma reachable_inv: "reachable s \<Longrightarrow> session_inv s"
proof (induction rule: reachable.induct)
  case reachable_initial
  show ?case by (simp add: session_inv_def get_error_def initial_session_def)
next
  case (reachable_run s inp s')
  then show ?case by (blast intro: script_run_inv)
qed

text \<open>No run of the script ends in an uncaught exception on a reachable session.\<close>

lemma script_run_total_on_reachable:
  assumes "reachable s"
  shows "\<exists>s'. script_run inp s = Inr s'"
proof (cases "state s = ''Complete''")
  case True
  then have "results s = Some STUB_UPDATES"
    using reachable_inv[OF assms] by (auto simp: session_inv_def)
  from complete_branch_ok[OF this stub_levels, of inp] True show ?thesis
    by (auto simp: script_run_def)
next
  case False
  then show ?thesis by (simp add: script_run_def)
qed

lemma try_body_reset: "try_body (inp\<lparr>reset_clicked := b\<rparr>) s = try_body inp s"
  by (cases "fault inp") (simp_all add: try_body_def Let_def)

lemma run_click:
  "script_run (quiet_inputs\<lparr>run_clicked := True\<rparr>) initial_session = Inr running_session"
  by (simp add: script_run_def idle_branch_def initial_session_def running_session_def)

lemma run_analysis: "script_run quiet_inputs running_session = Inr complete_session"
  by (simp add: script_run_def running_branch_def try_body_def Let_def quiet_inputs_def
      running_session_def initial_session_def complete_session_def)

lemma run_analysis_fault:
  "script_run (quiet_inputs\<lparr>fault := Some ''Simulated analysis failure.''\<rparr>) running_session =
     Inr failure_session"
  by (simp add: script_run_def running_branch_def try_body_def Let_def quiet_inputs_def
      running_session_def initial_session_def failure_session_def)

lemma reachable_running: "reachable running_session"
  by (rule reachable_run[OF reachable_initial run_click])

lemma reachable_complete: "reachable complete_session"
  by (rule reachable_run[OF reachable_running run_analysis])

lemma reachable_failure: "reachable failure_session"
  by (rule reachable_run[OF reachable_running run_analysis_fault])

text \<open>
  Claim C6. In state Running, every exception raised in the body of the
  \<^verbatim>\<open>try\<close> is caught: the run ends normally, in the session the raising statement
  left, with the text of the exception stored as the error and appended to the log as
  an "Error: " line, and with the state set to Failure.
\<close>

theorem running_exception_caught:
  assumes "state s = ''Running''" and "try_body inp s = Inl (e, s1)"
  shows "script_run inp s =
           Inr (s1\<lparr>logs := logs s1 @ [''Error: '' @ str_error e],
                   error := Some (Some (str_error e)), state := ''Failure''\<rparr>)"
  using assms by (simp add: script_run_def running_branch_def)

theorem running_exception_caught_witness:
  "state running_session = ''Running'' \<and>
   try_body (quiet_inputs\<lparr>fault := Some ''Simulated analysis failure.''\<rparr>) running_session =
     Inl (Exception ''Simulated analysis failure.'',
          running_session\<lparr>logs := [''Ingestion started at 09:00:00'',
            ''Parsing started at 09:00:01'', ''Classification started at 09:00:01'']\<rparr>) \<and>
   script_run (quiet_inputs\<lparr>fault := Some ''Simulated analysis failure.''\<rparr>) running_session =
     Inr failure_session"
proof -
  have s: "state running_session = ''Running''"
    by (simp add: running_session_def)
  have t: "try_body (quiet_inputs\<lparr>fault := Some ''Simulated analysis failure.''\<rparr>) running_session =
     Inl (Exception ''Simulated analysis failure.'',
          running_session\<lparr>logs := [''Ingestion started at 09:00:00'',
            ''Parsing started at 09:00:01'', ''Classification started at 09:00:01'']\<rparr>)"
    by (simp add: try_body_def Let_def quiet_inputs_def running_session_def initial_session_def)
  show ?thesis using s t running_exception_caught[OF s t]
    by (simp add: failure_session_def running_session_def initial_session_def)
qed

text \<open>
  Claim C7. In every session reachable from the initial one by runs of the script, the
  result set is present if and only if the state is Complete, and an error message is
  present only in state Failure.
\<close>

theorem reachable_results_error_invariant:
  assumes "reachable s"
  shows "(results s \<noteq> None \<longleftrightarrow> state s = ''Complete'') \<and>
         (get_error s \<noteq> None \<longrightarrow> state s = ''Failure'')"
  using reachable_inv[OF assms] by (auto simp: session_inv_def)

theorem reachable_results_error_invariant_witness:
  "reachable complete_session \<and> reachable failure_session \<and>
   results complete_session \<noteq> None \<and> state complete_session = ''Complete'' \<and>
   results failure_session = None \<and> get_error failure_session \<noteq> None \<and>
   state failure_session = ''Failure''"
  using reachable_results_error_invariant[OF reachable_complete]
        reachable_results_error_invariant[OF reachable_failure]
        reachable_complete reachable_failure
  by (simp add: complete_session_def failure_session_def get_error_def)

text \<open>
  Claim C8. A run in state Running ends normally in state Complete or Failure. When the
  analysis raises nothing, it ends in Complete, with the seeded result set stored and
  the three progress lines and the line "Analysis complete in ... seconds." (with the
  elapsed time) appended to the log.
\<close>

theorem running_step_complete_or_failure:
  assumes "state s = ''Running''"
  shows "\<exists>s'. script_run inp s = Inr s' \<and>
           (state s' = ''Complete'' \<or> state s' = ''Failure'') \<and>
           (fault inp = None \<longrightarrow>
              s' = s\<lparr>results := Some STUB_UPDATES,
                      logs := logs s @
                        [''Ingestion started at '' @ ingestion_time inp,
                         ''Parsing started at '' @ parsing_time inp,
                         ''Classification started at '' @ classification_time inp,
                         ''Analysis complete in '' @ analysis_seconds inp @ '' seconds.''],
                      state := ''Complete'', error := Some None\<rparr>)"
  using assms
  by (cases "fault inp")
     (simp_all add: script_run_def running_branch_def try_body_def Let_def)

theorem running_step_complete_or_failure_witness:
  "state running_session = ''Running'' \<and> fault quiet_inputs = None \<and>
   script_run quiet_inputs running_session = Inr complete_session"
proof -
  have s: "state running_session = ''Running''"
    by (simp add: running_session_def)
  have f: "fault quiet_inputs = None" by (simp add: quiet_inputs_def)
  from running_step_complete_or_failure[OF s, of quiet_inputs] f obtain s' where
    "script_run quiet_inputs running_session = Inr s'"
    "s' = running_session\<lparr>results := Some STUB_UPDATES,
                      logs := logs running_session @
                        [''Ingestion started at '' @ ingestion_time quiet_inputs,
                         ''Parsing started at '' @ parsing_time quiet_inputs,
                         ''Classification started at '' @ classification_time quiet_inputs,
                         ''Analysis complete in '' @ analysis_seconds quiet_inputs @ '' seconds.''],
                      state := ''Complete'', error := Some None\<rparr>" by blast
  then show ?thesis using s f
    by (simp add: quiet_inputs_def running_session_def initial_session_def complete_session_def)
qed

text \<open>
  Claim C9. In a reachable session in state Complete, a run with "Reset" clicked ends in
  state Idle with the result set absent, both edit maps empty, the log empty and the
  error cleared (the key holds \<^verbatim>\<open>None\<close>): every field has the value the program
  reads in the initial session. In any other state the button does not exist, and a
  click on it changes nothing of the run.
\<close>

theorem reset_restores_initial:
  "(reachable s \<and> state s = ''Complete'' \<and> reset_clicked inp \<longrightarrow>
      script_run inp s = Inr (initial_session\<lparr>error := Some None\<rparr>) \<and>
      get_error (initial_session\<lparr>error := Some None\<rparr>) = get_error initial_session) \<and>
   (state s \<noteq> ''Complete'' \<longrightarrow> script_run (inp\<lparr>reset_clicked := b\<rparr>) s = script_run inp s)"
proof (intro conjI impI)
  assume a: "reachable s \<and> state s = ''Complete'' \<and> reset_clicked inp"
  then have r: "results s = Some STUB_UPDATES"
    using reachable_inv[of s] by (auto simp: session_inv_def)
  from complete_branch_ok[OF r stub_levels, of inp] a
  show "script_run inp s = Inr (initial_session\<lparr>error := Some None\<rparr>)"
    by (auto simp: script_run_def initial_session_def Let_def)
next
  show "get_error (initial_session\<lparr>error := Some None\<rparr>) = get_error initial_session"
    by (simp add: get_error_def initial_session_def)
next
  assume "state s \<noteq> ''Complete''"
  then show "script_run (inp\<lparr>reset_clicked := b\<rparr>) s = script_run inp s"
    by (simp add: script_run_def idle_branch_def running_branch_def try_body_reset
        failure_branch_def other_branch_def)
qed

theorem reset_restores_initial_witness:
  "reachable complete_session \<and> state complete_session = ''Complete'' \<and>
   reset_clicked (quiet_inputs\<lparr>reset_clicked := True\<rparr>) \<and>
   script_run (quiet_inputs\<lparr>reset_clicked := True\<rparr>) complete_session =
     Inr \<lparr>state = ''Idle'', results = None, rationales = Map.empty, affected = Map.empty,
          logs = [], error = Some None\<rparr> \<and>
   state running_session \<noteq> ''Complete'' \<and>
   script_run (quiet_inputs\<lparr>reset_clicked := True\<rparr>) running_session =
     script_run quiet_inputs running_session"
  using reset_restores_initial[of complete_session "quiet_inputs\<lparr>reset_clicked := True\<rparr>"]
        reset_restores_initial[of running_session quiet_inputs True] reachable_complete
  by (simp add: complete_session_def running_session_def initial_session_def)

text \<open>
  Claim C10. In state Failure, a run with "Retry" clicked sets the state to Idle and
  clears the error, and changes nothing else: the log, the result set and both edit maps
  are those of the session before the run.
\<close>

theorem retry_frame:
  assumes "state s = ''Failure''" and "retry_clicked inp"
  shows "\<exists>s'. script_run inp s = Inr s' \<and>
           s' = s\<lparr>state := ''Idle'', error := Some None\<rparr> \<and>
           logs s' = logs s \<and> results s' = results s \<and>
           rationales s' = rationales s \<and> affected s' = affected s"
  using assms by (simp add: script_run_def failure_branch_def)

theorem retry_frame_witness:
  "state failure_session = ''Failure'' \<and>
   retry_clicked (quiet_inputs\<lparr>retry_clicked := True\<rparr>) \<and>
   script_run (quiet_inputs\<lparr>retry_clicked := True\<rparr>) failure_session =
     Inr \<lparr>state = ''Idle'', results = None, rationales = Map.empty, affected = Map.empty,
      logs = [''Ingestion started at 09:00:00'', ''Parsing started at 09:00:01'',
              ''Classification started at 09:00:01'', ''Error: Simulated analysis failure.''],
      error = Some None\<rparr>"
  using retry_frame[of failure_session "quiet_inputs\<lparr>retry_clicked := True\<rparr>"]
  by (simp add: failure_session_def)

end
